theory Spec2Isabelle
  imports Complex_Main
begin

section \<open>The SMBFS volume driver: data model\<close>

text \<open>
  A shallow embedding of \<^verbatim>\<open>cinder/volume/drivers/smbfs.py\<close> (class
  \<^verbatim>\<open>SmbfsDriver\<close>). Capacity figures are Python floats in the source; they are
  modelled as exact rationals, so rounding, infinities and NaN are outside the model.
  Division follows Python: dividing by zero raises \<^verbatim>\<open>ZeroDivisionError\<close>.

  Message texts of log records and exceptions are an enumeration of the source's
  message templates; the \<^verbatim>\<open>%\<close> interpolation is not modelled, the
  interpolated share is kept as an argument of the log record.
\<close>

datatype message =
    No_config_file_configured
  | Config_file_does_not_exist
  | Oversub_ratio_invalid
  | Used_ratio_invalid
  | Creating_new_volume_at
  | File_already_exists_at
  | Repr_debug
  | Selected_as_target_share
  | Is_above_used_ratio
  | Is_above_oversub_ratio
  | Reserved_space_is_above_oversub_ratio

datatype level = Debug | Warn | Error

text \<open>
  Exceptions. \<open>External\<close> stands for whatever a collaborator (the process executor,
  the remote-filesystem client, a method of the parent class) raises.
\<close>

datatype exn =
    SmbfsException message
  | SmbfsNoSharesMounted
  | SmbfsNoSuitableShareFound int
  | InvalidVolume message
  | NameError string
  | ZeroDivisionError
  | ValueError
  | IndexError
  | External string

text \<open>
  The observable effects of a call, in the order in which they happen: a process run
  through \<^verbatim>\<open>self._execute\<close> (its argv; every call in the source passes
  \<^verbatim>\<open>run_as_root=True\<close>), a call of the remote-filesystem client's
  \<^verbatim>\<open>mount\<close>, a log record, and the calls of the parent class's file
  creation helpers.
\<close>

datatype event =
    Exec "string list"
  | Mount string "string list"
  | Log level message "string list"
  | Create_qcow2_file string int
  | Create_sparsed_file string int
  | Create_regular_file string int
  | Set_rw_permissions_for_all string

record configuration =
  smbfs_shares_config :: "string option"
  smbfs_sparsed_volumes :: bool
  smbfs_used_ratio :: rat
  smbfs_oversub_ratio :: rat
  smbfs_qcow2_volumes :: bool

text \<open>
  The collaborators of the driver, which are not part of the module: the process
  executor (standard output of the command, or the exception it raises), Python's
  builtin \<^verbatim>\<open>float\<close> on strings (\<open>None\<close> is \<^verbatim>\<open>ValueError\<close>), the
  remote-filesystem client, \<^verbatim>\<open>os.path.exists\<close>, and the methods inherited
  from \<^verbatim>\<open>nfs.RemoteFsDriver\<close> (\<open>inherited\<close> gives the outcome of a file
  creation helper, named by its event). The executor is a function of the argv alone:
  the filesystem does not change during one call of the driver.
\<close>

record driver =
  shares :: "string \<rightharpoonup> string option"
  mounted_shares :: "string list"
  img_suffix :: "string option"

record volume_type =
  vt_name :: string

record volume =
  vol_name :: string
  vol_size :: int
  provider_location :: "string option"
  vol_type :: "volume_type option"

record env =
  conf :: configuration
  execute :: "string list \<Rightarrow> exn + string"
  pyfloat :: "string \<Rightarrow> rat option"
  get_mount_point :: "string \<Rightarrow> string"
  mount :: "string \<Rightarrow> string list \<Rightarrow> exn + unit"
  path_exists :: "string \<Rightarrow> bool"
  local_path :: "volume \<Rightarrow> string"
  inherited :: "event \<Rightarrow> exn + unit"
  super_do_setup :: "driver \<Rightarrow> exn + driver"
  ensure_shares_mounted :: "driver \<Rightarrow> exn + driver"

type_synonym capacity = "rat \<times> rat \<times> rat"

section \<open>Python primitives\<close>

text \<open>\<^verbatim>\<open>str.isspace\<close> on the ASCII whitespace characters.\<close>

definition isspace :: "char \<Rightarrow> bool" where
  "isspace c = (c = CHR '' '' \<or> c = CHR 0x09 \<or> c = CHR 0x0A \<or> c = CHR 0x0B
                \<or> c = CHR 0x0C \<or> c = CHR 0x0D)"

text \<open>
  \<^verbatim>\<open>str.split()\<close> without arguments: the maximal runs of non-whitespace
  characters. \<open>cur\<close> is the token being read.
\<close>

fun split_aux :: "string \<Rightarrow> string \<Rightarrow> string list" where
  "split_aux cur [] = (if cur = [] then [] else [cur])"
| "split_aux cur (c # cs) =
     (if isspace c then (if cur = [] then split_aux [] cs else cur # split_aux [] cs)
      else split_aux (cur @ [c]) cs)"

definition str_split :: "string \<Rightarrow> string list" where
  "str_split s = split_aux [] s"

text \<open>Python's \<^verbatim>\<open>/\<close> on floats.\<close>

definition py_div :: "rat \<Rightarrow> rat \<Rightarrow> exn + rat" where
  "py_div a b = (if b = 0 then Inl ZeroDivisionError else Inr (a / b))"

text \<open>
  Modelled from the spec: \<^verbatim>\<open>units.GiB\<close> of \<^verbatim>\<open>cinder/units.py\<close>, which is not
  among the sources; the spec gives \<^verbatim>\<open>requested = requested_size_gib * 2^30 bytes\<close>.
\<close>

definition GiB :: int where
  "GiB = 2 ^ 30"

section \<open>Capacity inspection\<close>

definition stat_cmd :: "string \<Rightarrow> string list" where
  "stat_cmd mount_point = [''stat'', ''-f'', ''-c'', ''%S %b %a'', mount_point]"

definition du_cmd :: "string \<Rightarrow> string list" where
  "du_cmd mount_point =
     [''du'', ''-sb'', ''--apparent-size'', ''--exclude'', ''*snapshot*'', mount_point]"

text \<open>
  \<^verbatim>\<open>block_size, blocks_total, blocks_avail = map(float, df.split())\<close>: every
  token is converted first, then the list is unpacked into exactly three names; both
  failures are \<^verbatim>\<open>ValueError\<close>.
\<close>

definition unpack3 :: "env \<Rightarrow> string \<Rightarrow> exn + capacity" where
  "unpack3 env df =
     (case those (map (pyfloat env) (str_split df)) of
        None \<Rightarrow> Inl ValueError
      | Some [block_size, blocks_total, blocks_avail] \<Rightarrow>
          Inr (block_size, blocks_total, blocks_avail)
      | Some _ \<Rightarrow> Inl ValueError)"

text \<open>\<^verbatim>\<open>float(du.split()[0])\<close>.\<close>

definition first_float :: "env \<Rightarrow> string \<Rightarrow> exn + rat" where
  "first_float env du =
     (case str_split du of
        [] \<Rightarrow> Inl IndexError
      | t # _ \<Rightarrow> (case pyfloat env t of None \<Rightarrow> Inl ValueError | Some x \<Rightarrow> Inr x))"

definition get_capacity_info :: "env \<Rightarrow> string \<Rightarrow> (exn + capacity) \<times> event list" where
  "get_capacity_info env smbfs_share =
     (let mount_point = get_mount_point env smbfs_share in
      case execute env (stat_cmd mount_point) of
        Inl e \<Rightarrow> (Inl e, [Exec (stat_cmd mount_point)])
      | Inr df \<Rightarrow>
         (case unpack3 env df of
            Inl e \<Rightarrow> (Inl e, [Exec (stat_cmd mount_point)])
          | Inr (block_size, blocks_total, blocks_avail) \<Rightarrow>
             (let total_available = block_size * blocks_avail;
                  total_size = block_size * blocks_total in
              case execute env (du_cmd mount_point) of
                Inl e \<Rightarrow> (Inl e, [Exec (stat_cmd mount_point), Exec (du_cmd mount_point)])
              | Inr du \<Rightarrow>
                 (case first_float env du of
                    Inl e \<Rightarrow>
                      (Inl e, [Exec (stat_cmd mount_point), Exec (du_cmd mount_point)])
                  | Inr total_allocated \<Rightarrow>
                      (Inr (total_size, total_available, total_allocated),
                       [Exec (stat_cmd mount_point), Exec (du_cmd mount_point)])))))"

section \<open>Share selection\<close>

text \<open>
  The three checks of \<^verbatim>\<open>_is_share_eligible\<close> on the capacity triple, in the
  order of the source. Each rejection writes its own debug record.
\<close>

definition eligible_checks ::
  "env \<Rightarrow> string \<Rightarrow> int \<Rightarrow> capacity \<Rightarrow> (exn + bool) \<times> event list" where
  "eligible_checks env smbfs_share volume_size_in_gib cap =
     (case cap of (total_size, total_available, total_allocated) \<Rightarrow>
      let used_ratio = smbfs_used_ratio (conf env);
          oversub_ratio = smbfs_oversub_ratio (conf env);
          requested_volume_size = of_int (volume_size_in_gib * GiB);
          apparent_size = max 0 (total_size * oversub_ratio);
          apparent_available = max 0 (apparent_size - total_allocated) in
      case py_div (total_size - total_available) total_size of
        Inl e \<Rightarrow> (Inl e, [])
      | Inr used \<Rightarrow>
          if used > used_ratio
          then (Inr False, [Log Debug Is_above_used_ratio [smbfs_share]])
          else if apparent_available \<le> requested_volume_size
          then (Inr False, [Log Debug Is_above_oversub_ratio [smbfs_share]])
          else (case py_div total_allocated total_size of
                  Inl e \<Rightarrow> (Inl e, [])
                | Inr reserved_ratio \<Rightarrow>
                    if reserved_ratio \<ge> oversub_ratio
                    then (Inr False,
                          [Log Debug Reserved_space_is_above_oversub_ratio [smbfs_share]])
                    else (Inr True, [])))"

definition is_share_eligible ::
  "env \<Rightarrow> string \<Rightarrow> int \<Rightarrow> (exn + bool) \<times> event list" where
  "is_share_eligible env smbfs_share volume_size_in_gib =
     (case get_capacity_info env smbfs_share of
        (Inl e, tr) \<Rightarrow> (Inl e, tr)
      | (Inr cap, tr) \<Rightarrow>
          (case eligible_checks env smbfs_share volume_size_in_gib cap of
             (r, tr') \<Rightarrow> (r, tr @ tr')))"

text \<open>
  The body of the loop of \<^verbatim>\<open>_find_share\<close> for an eligible share: the loop
  state is the pair \<^verbatim>\<open>(target_share, target_share_reserved)\<close>, replaced
  when there is no target yet or when the target's reservation is strictly greater.
\<close>

definition choose_target ::
  "string option \<times> rat \<Rightarrow> string \<Rightarrow> rat \<Rightarrow> string option \<times> rat" where
  "choose_target st smbfs_share total_allocated =
     (case st of (target_share, target_share_reserved) \<Rightarrow>
        if target_share \<noteq> None
        then (if target_share_reserved > total_allocated
              then (Some smbfs_share, total_allocated)
              else (target_share, target_share_reserved))
        else (Some smbfs_share, total_allocated))"

text \<open>
  The loop over the mounted shares. An eligible share is inspected a second time to
  read its \<^verbatim>\<open>total_allocated\<close>; an exception of either call ends the loop.
\<close>

fun find_share_loop ::
  "env \<Rightarrow> int \<Rightarrow> string list \<Rightarrow> string option \<times> rat \<Rightarrow>
     (exn + string option \<times> rat) \<times> event list" where
  "find_share_loop env volume_size_in_gib [] st = (Inr st, [])"
| "find_share_loop env volume_size_in_gib (smbfs_share # rest) st =
     (case is_share_eligible env smbfs_share volume_size_in_gib of
        (Inl e, tr) \<Rightarrow> (Inl e, tr)
      | (Inr False, tr) \<Rightarrow>
          (case find_share_loop env volume_size_in_gib rest st of
             (r, tr') \<Rightarrow> (r, tr @ tr'))
      | (Inr True, tr) \<Rightarrow>
          (case get_capacity_info env smbfs_share of
             (Inl e, tr2) \<Rightarrow> (Inl e, tr @ tr2)
           | (Inr (total_size, total_available, total_allocated), tr2) \<Rightarrow>
               (case find_share_loop env volume_size_in_gib rest
                       (choose_target st smbfs_share total_allocated) of
                  (r, tr') \<Rightarrow> (r, tr @ tr2 @ tr'))))"

definition find_share :: "env \<Rightarrow> driver \<Rightarrow> int \<Rightarrow> (exn + string) \<times> event list" where
  "find_share env self volume_size_in_gib =
     (if mounted_shares self = [] then (Inl SmbfsNoSharesMounted, [])
      else
        (case find_share_loop env volume_size_in_gib (mounted_shares self) (None, 0) of
           (Inl e, tr) \<Rightarrow> (Inl e, tr)
         | (Inr (None, _), tr) \<Rightarrow> (Inl (SmbfsNoSuitableShareFound volume_size_in_gib), tr)
         | (Inr (Some target_share, _), tr) \<Rightarrow>
             (Inr target_share, tr @ [Log Debug Selected_as_target_share [target_share]])))"

section \<open>Mounting\<close>

text \<open>
  \<^verbatim>\<open>self.shares\<close> maps a share to its options string or to \<^verbatim>\<open>None\<close>;
  \<^verbatim>\<open>dict.get\<close> gives \<^verbatim>\<open>None\<close> for a share that is not a key.
\<close>

definition mnt_flags_of :: "driver \<Rightarrow> string \<Rightarrow> string list" where
  "mnt_flags_of self smbfs_share =
     (case shares self smbfs_share of
        Some (Some opts) \<Rightarrow> str_split opts
      | _ \<Rightarrow> [])"

definition ensure_share_mounted :: "env \<Rightarrow> driver \<Rightarrow> string \<Rightarrow> (exn + unit) \<times> event list" where
  "ensure_share_mounted env self smbfs_share =
     (let mnt_flags = mnt_flags_of self smbfs_share in
      (mount env smbfs_share mnt_flags,
       [Log Debug Repr_debug [], Log Debug Repr_debug [smbfs_share],
        Mount smbfs_share mnt_flags]))"

section \<open>Setup\<close>

text \<open>
  \<^verbatim>\<open>do_setup\<close>. \<^verbatim>\<open>if not config\<close> holds for \<^verbatim>\<open>None\<close> and for the
  empty string. The two calls of the parent class are collaborators.
\<close>

definition do_setup :: "env \<Rightarrow> driver \<Rightarrow> (exn + driver) \<times> event list" where
  "do_setup env self =
     (case super_do_setup env self of
        Inl e \<Rightarrow> (Inl e, [])
      | Inr self1 \<Rightarrow>
         (case smbfs_shares_config (conf env) of
            None \<Rightarrow>
              (Inl (SmbfsException No_config_file_configured),
               [Log Warn No_config_file_configured []])
          | Some config \<Rightarrow>
              if config = []
              then (Inl (SmbfsException No_config_file_configured),
                    [Log Warn No_config_file_configured []])
              else if \<not> path_exists env config
              then (Inl (SmbfsException Config_file_does_not_exist),
                    [Log Warn Config_file_does_not_exist [config]])
              else if \<not> smbfs_oversub_ratio (conf env) > 0
              then (Inl (SmbfsException Oversub_ratio_invalid),
                    [Log Error Oversub_ratio_invalid []])
              else if (\<not> smbfs_used_ratio (conf env) > 0)
                      \<and> smbfs_used_ratio (conf env) \<le> 1
              then (Inl (SmbfsException Used_ratio_invalid),
                    [Log Error Used_ratio_invalid []])
              else (ensure_shares_mounted env (self1\<lparr>shares := Map.empty\<rparr>), [])))"

section \<open>Creating volumes\<close>

text \<open>\<^verbatim>\<open>str\<close> of an integer.\<close>

definition digit_char :: "nat \<Rightarrow> char" where
  "digit_char d = ''0123456789'' ! d"

fun str_nat :: "nat \<Rightarrow> string" where
  "str_nat n = (if n < 10 then [digit_char n] else str_nat (n div 10) @ [digit_char (n mod 10)])"

declare str_nat.simps [simp del]

definition str_int :: "int \<Rightarrow> string" where
  "str_int i = (if i < 0 then CHR ''-'' # str_nat (nat (- i)) else str_nat (nat i))"

definition vpc_cmd :: "string \<Rightarrow> int \<Rightarrow> string list" where
  "vpc_cmd volume_path volume_size =
     [''qemu-img'', ''create'', ''-f'', ''vpc'', volume_path, str_int (volume_size * GiB)]"

definition create_vpc_file :: "env \<Rightarrow> string \<Rightarrow> int \<Rightarrow> (exn + unit) \<times> event list" where
  "create_vpc_file env volume_path volume_size =
     (case execute env (vpc_cmd volume_path volume_size) of
        Inl e \<Rightarrow> (Inl e, [Exec (vpc_cmd volume_path volume_size)])
      | Inr _ \<Rightarrow> (Inr (), [Exec (vpc_cmd volume_path volume_size)]))"

text \<open>A call of a helper of the parent class: its event, and what it raises.\<close>

definition call_inherited :: "env \<Rightarrow> event \<Rightarrow> (exn + unit) \<times> event list" where
  "call_inherited env ev = (inherited env ev, [ev])"

text \<open>
  \<^verbatim>\<open>_do_create_volume\<close>. The \<^verbatim>\<open>else\<close> branch of the volume type test
  reads \<^verbatim>\<open>raise SmbfsException("Invalid volume type")\<close>, and the module binds no
  name \<^verbatim>\<open>SmbfsException\<close> (the class is \<^verbatim>\<open>exception.SmbfsException\<close>
  everywhere else): evaluating the name raises \<^verbatim>\<open>NameError\<close>.
\<close>

definition create_file ::
  "env \<Rightarrow> driver \<Rightarrow> volume \<Rightarrow> string \<Rightarrow> int \<Rightarrow> (exn + driver) \<times> event list" where
  "create_file env self volume volume_path volume_size =
     (case vol_type volume of
        Some vt \<Rightarrow>
          if vt_name vt = ''vpc'' \<or> vt_name vt = ''vhd'' \<or> vt_name vt = ''vhdx''
          then (case create_vpc_file env volume_path volume_size of
                  (Inl e, tr) \<Rightarrow> (Inl e, tr)
                | (Inr _, tr) \<Rightarrow> (Inr self, tr))
          else (Inl (NameError ''SmbfsException''), [])
      | None \<Rightarrow>
          (case call_inherited env
                  (if smbfs_qcow2_volumes (conf env)
                   then Create_qcow2_file volume_path volume_size
                   else if smbfs_sparsed_volumes (conf env)
                   then Create_sparsed_file volume_path volume_size
                   else Create_regular_file volume_path volume_size) of
             (Inl e, tr) \<Rightarrow> (Inl e, tr)
           | (Inr _, tr) \<Rightarrow> (Inr (self\<lparr>img_suffix := None\<rparr>), tr)))"

definition do_create_volume ::
  "env \<Rightarrow> driver \<Rightarrow> volume \<Rightarrow> (exn + driver) \<times> event list" where
  "do_create_volume env self volume =
     (let volume_path = local_path env volume;
          volume_size = vol_size volume in
      if path_exists env volume_path
      then (Inl (InvalidVolume File_already_exists_at),
            [Log Debug Creating_new_volume_at [volume_path],
             Log Error File_already_exists_at [volume_path]])
      else
        (case create_file env self volume volume_path volume_size of
           (Inl e, tr) \<Rightarrow> (Inl e, Log Debug Creating_new_volume_at [volume_path] # tr)
         | (Inr self1, tr) \<Rightarrow>
             (case call_inherited env (Set_rw_permissions_for_all volume_path) of
                (Inl e, tr') \<Rightarrow>
                  (Inl e, Log Debug Creating_new_volume_at [volume_path] # tr @ tr')
              | (Inr _, tr') \<Rightarrow>
                  (Inr self1, Log Debug Creating_new_volume_at [volume_path] # tr @ tr'))))"

section \<open>Observations and a concrete deployment\<close>

text \<open>What the inspection of a share reports as allocated (0 when it fails).\<close>

definition total_allocated_of :: "env \<Rightarrow> string \<Rightarrow> rat" where
  "total_allocated_of env smbfs_share =
     (case fst (get_capacity_info env smbfs_share) of
        Inr (total_size, total_available, total_allocated) \<Rightarrow> total_allocated
      | Inl e \<Rightarrow> 0)"

definition eligible :: "env \<Rightarrow> int \<Rightarrow> string \<Rightarrow> bool" where
  "eligible env volume_size_in_gib smbfs_share =
     (fst (is_share_eligible env smbfs_share volume_size_in_gib) = Inr True)"

text \<open>
  The selection as the specification words it: among the eligible shares, the first
  one in iteration order whose allocation is the lowest.
\<close>

definition least_allocated_share :: "env \<Rightarrow> int \<Rightarrow> string list \<Rightarrow> string option" where
  "least_allocated_share env volume_size_in_gib xs =
     (let es = filter (eligible env volume_size_in_gib) xs in
      if es = [] then None
      else find (\<lambda>s. total_allocated_of env s = Min (set (map (total_allocated_of env) es)))
             es)"

text \<open>
  The same, as a position in the list: \<open>w\<close> is eligible, every eligible share before
  it has strictly more allocated, and no eligible share after it has less.
\<close>

definition first_least :: "env \<Rightarrow> int \<Rightarrow> string list \<Rightarrow> string \<Rightarrow> bool" where
  "first_least env volume_size_in_gib xs w =
     (\<exists>pre post. xs = pre @ w # post \<and> eligible env volume_size_in_gib w
        \<and> (\<forall>s \<in> set pre. eligible env volume_size_in_gib s \<longrightarrow>
              total_allocated_of env w < total_allocated_of env s)
        \<and> (\<forall>s \<in> set post. eligible env volume_size_in_gib s \<longrightarrow>
              total_allocated_of env w \<le> total_allocated_of env s))"

text \<open>
  A deployment to run the driver on. \<open>dec_float\<close> is \<^verbatim>\<open>float\<close> on the
  unsigned decimal integers that \<^verbatim>\<open>stat\<close> and \<^verbatim>\<open>du\<close> print. Shares
  \<open>a\<close>, \<open>b\<close>, \<open>c\<close> are 4 GiB filesystems with 10, 5 and 5 bytes allocated, \<open>f\<close>
  is a full one, \<open>z\<close> reports no blocks at all, and any other share cannot be
  inspected.
\<close>

definition digit_val :: "char \<Rightarrow> nat option" where
  "digit_val c = map_of (zip ''0123456789'' [0, 1, 2, 3, 4, 5, 6, 7, 8, 9]) c"

fun dec_aux :: "nat \<Rightarrow> string \<Rightarrow> nat option" where
  "dec_aux acc [] = Some acc"
| "dec_aux acc (c # cs) =
     (case digit_val c of None \<Rightarrow> None | Some d \<Rightarrow> dec_aux (10 * acc + d) cs)"

definition dec_float :: "string \<Rightarrow> rat option" where
  "dec_float s = (if s = [] then None else map_option of_nat (dec_aux 0 s))"

definition ex_execute :: "string list \<Rightarrow> exn + string" where
  "ex_execute argv =
     (if argv = stat_cmd ''/mnt/a'' then Inr ''4096 1048576 1000000''
      else if argv = du_cmd ''/mnt/a'' then Inr (''10'' @ [CHR 0x09] @ ''/mnt/a'')
      else if argv = stat_cmd ''/mnt/b'' then Inr ''4096 1048576 1000000''
      else if argv = du_cmd ''/mnt/b'' then Inr (''5'' @ [CHR 0x09] @ ''/mnt/b'')
      else if argv = stat_cmd ''/mnt/c'' then Inr ''4096 1048576 1000000''
      else if argv = du_cmd ''/mnt/c'' then Inr (''5'' @ [CHR 0x09] @ ''/mnt/c'')
      else if argv = stat_cmd ''/mnt/f'' then Inr ''4096 1048576 10''
      else if argv = du_cmd ''/mnt/f'' then Inr (''5'' @ [CHR 0x09] @ ''/mnt/f'')
      else if argv = stat_cmd ''/mnt/z'' then Inr ''4096 0 0''
      else if argv = du_cmd ''/mnt/z'' then Inr (''0'' @ [CHR 0x09] @ ''/mnt/z'')
      else Inl (External ''ProcessExecutionError''))"

definition ex_conf :: configuration where
  "ex_conf =
     \<lparr>smbfs_shares_config = Some ''/etc/cinder/smbfs_shares'',
      smbfs_sparsed_volumes = True,
      smbfs_used_ratio = 95 / 100,
      smbfs_oversub_ratio = 1,
      smbfs_qcow2_volumes = False\<rparr>"

definition ex_env :: env where
  "ex_env =
     \<lparr>conf = ex_conf,
      execute = ex_execute,
      pyfloat = dec_float,
      get_mount_point = (\<lambda>s. ''/mnt/'' @ s),
      mount = (\<lambda>s fl. Inr ()),
      path_exists = (\<lambda>p. p = ''/etc/cinder/smbfs_shares''),
      local_path = (\<lambda>v. ''/mnt/a/'' @ vol_name v),
      inherited = (\<lambda>ev. Inr ()),
      super_do_setup = Inr,
      ensure_shares_mounted = Inr\<rparr>"

definition ex_driver :: "string list \<Rightarrow> driver" where
  "ex_driver ms =
     \<lparr>shares = [''a'' \<mapsto> Some ''-o username=u,password=p'', ''b'' \<mapsto> None],
      mounted_shares = ms,
      img_suffix = None\<rparr>"

definition ex_volume :: "string \<Rightarrow> volume" where
  "ex_volume type_name =
     \<lparr>vol_name = ''volume-1'', vol_size = 1, provider_location = Some ''a'',
      vol_type = Some \<lparr>vt_name = type_name\<rparr>\<rparr>"

section \<open>Properties\<close>

subsection \<open>The concrete deployment, evaluated\<close>

lemmas ex_defs =
  get_capacity_info_def ex_env_def ex_conf_def ex_execute_def stat_cmd_def du_cmd_def
  unpack3_def first_float_def str_split_def isspace_def dec_float_def digit_val_def Let_def

lemma ex_capacity_a:
  "get_capacity_info ex_env ''a'' =
     (Inr (4294967296, 4096000000, 10),
      [Exec (stat_cmd ''/mnt/a''), Exec (du_cmd ''/mnt/a'')])"
  by (simp add: ex_defs)

lemma ex_capacity_b:
  "get_capacity_info ex_env ''b'' =
     (Inr (4294967296, 4096000000, 5),
      [Exec (stat_cmd ''/mnt/b''), Exec (du_cmd ''/mnt/b'')])"
  by (simp add: ex_defs)

lemma ex_capacity_c:
  "get_capacity_info ex_env ''c'' =
     (Inr (4294967296, 4096000000, 5),
      [Exec (stat_cmd ''/mnt/c''), Exec (du_cmd ''/mnt/c'')])"
  by (simp add: ex_defs)

lemma ex_capacity_f:
  "get_capacity_info ex_env ''f'' =
     (Inr (4294967296, 40960, 5),
      [Exec (stat_cmd ''/mnt/f''), Exec (du_cmd ''/mnt/f'')])"
  by (simp add: ex_defs)

lemma ex_capacity_z:
  "get_capacity_info ex_env ''z'' =
     (Inr (0, 0, 0), [Exec (stat_cmd ''/mnt/z''), Exec (du_cmd ''/mnt/z'')])"
  by (simp add: ex_defs)

lemma ex_eligible_a: "is_share_eligible ex_env ''a'' 1 =
    (Inr True, [Exec (stat_cmd ''/mnt/a''), Exec (du_cmd ''/mnt/a'')])"
  by (simp add: ex_capacity_a is_share_eligible_def)
     (simp add: eligible_checks_def py_div_def GiB_def ex_env_def ex_conf_def)

lemma ex_eligible_b: "is_share_eligible ex_env ''b'' 1 =
    (Inr True, [Exec (stat_cmd ''/mnt/b''), Exec (du_cmd ''/mnt/b'')])"
  by (simp add: ex_capacity_b is_share_eligible_def)
     (simp add: eligible_checks_def py_div_def GiB_def ex_env_def ex_conf_def)

lemma ex_eligible_c: "is_share_eligible ex_env ''c'' 1 =
    (Inr True, [Exec (stat_cmd ''/mnt/c''), Exec (du_cmd ''/mnt/c'')])"
  by (simp add: ex_capacity_c is_share_eligible_def)
     (simp add: eligible_checks_def py_div_def GiB_def ex_env_def ex_conf_def)

lemma ex_eligible_f: "is_share_eligible ex_env ''f'' 1 =
    (Inr False, [Exec (stat_cmd ''/mnt/f''), Exec (du_cmd ''/mnt/f''),
                 Log Debug Is_above_used_ratio [''f'']])"
  by (simp add: ex_capacity_f is_share_eligible_def)
     (simp add: eligible_checks_def py_div_def GiB_def ex_env_def ex_conf_def)

lemma ex_eligible_z: "is_share_eligible ex_env ''z'' 1 =
    (Inl ZeroDivisionError, [Exec (stat_cmd ''/mnt/z''), Exec (du_cmd ''/mnt/z'')])"
  by (simp add: ex_capacity_z is_share_eligible_def)
     (simp add: eligible_checks_def py_div_def GiB_def ex_env_def ex_conf_def)

subsection \<open>Eligibility\<close>

text \<open>
  C2: a share whose capacity query reports \<open>total_size > 0\<close> and whose used fraction
  \<open>(total_size - total_available) / total_size\<close> exceeds \<open>used_ratio\<close> is not
  eligible, whatever \<open>oversub_ratio\<close>, \<open>total_allocated\<close> and the requested size
  are; the rejection is the used-ratio one (its debug record is the only one written
  after the two inspection commands), so it is decided before the oversubscription
  checks.
\<close>

theorem used_ratio_rejects_first:
  assumes "fst (get_capacity_info env smbfs_share) =
             Inr (total_size, total_available, total_allocated)"
    and "total_size > 0"
    and "(total_size - total_available) / total_size > smbfs_used_ratio (conf env)"
  shows "is_share_eligible env smbfs_share volume_size_in_gib =
           (Inr False,
            snd (get_capacity_info env smbfs_share)
              @ [Log Debug Is_above_used_ratio [smbfs_share]])"
  using assms
  by (cases "get_capacity_info env smbfs_share")
     (simp add: is_share_eligible_def eligible_checks_def py_div_def)


theorem used_ratio_rejects_first_witness:
  "fst (get_capacity_info ex_env ''f'') = Inr (4294967296, 40960, 5)
   \<and> (4294967296 :: rat) > 0
   \<and> (4294967296 - 40960) / 4294967296 > smbfs_used_ratio (conf ex_env)
   \<and> is_share_eligible ex_env ''f'' 1 =
        (Inr False,
         [Exec (stat_cmd ''/mnt/f''), Exec (du_cmd ''/mnt/f''),
          Log Debug Is_above_used_ratio [''f'']])"
proof -
  have c: "fst (get_capacity_info ex_env ''f'') = Inr (4294967296, 40960, 5)"
    by (simp add: ex_capacity_f)
  have u: "(4294967296 - 40960) / 4294967296 > smbfs_used_ratio (conf ex_env)"
    by (simp add: ex_env_def ex_conf_def)
  show ?thesis
    using used_ratio_rejects_first [OF c _ u, of 1] c u by (simp add: ex_capacity_f)
qed

text \<open>
  C3: for a share with \<open>total_size > 0\<close> that passes the used-ratio check, the
  eligibility check returns true exactly when
  \<open>max 0 (max 0 (total_size * oversub_ratio) - total_allocated)\<close> is strictly greater
  than the requested size in bytes (\<open>volume_size_in_gib * 2^30\<close>) and
  \<open>total_allocated / total_size\<close> is strictly less than \<open>oversub_ratio\<close>.
\<close>

theorem eligible_iff_oversub_checks:
  assumes "fst (get_capacity_info env smbfs_share) =
             Inr (total_size, total_available, total_allocated)"
    and "total_size > 0"
    and "\<not> (total_size - total_available) / total_size > smbfs_used_ratio (conf env)"
  shows "fst (is_share_eligible env smbfs_share volume_size_in_gib) =
           Inr (max 0 (max 0 (total_size * smbfs_oversub_ratio (conf env)) - total_allocated)
                  > of_int volume_size_in_gib * 2 ^ 30
                \<and> total_allocated / total_size < smbfs_oversub_ratio (conf env))"
  using assms
  by (cases "get_capacity_info env smbfs_share")
     (auto simp add: is_share_eligible_def eligible_checks_def py_div_def GiB_def Let_def
           split: prod.splits)

theorem eligible_iff_oversub_checks_witness:
  "fst (get_capacity_info ex_env ''a'') = Inr (4294967296, 4096000000, 10)
   \<and> (4294967296 :: rat) > 0
   \<and> \<not> (4294967296 - 4096000000) / 4294967296 > smbfs_used_ratio (conf ex_env)
   \<and> fst (is_share_eligible ex_env ''a'' 1) = Inr True
   \<and> fst (is_share_eligible ex_env ''a'' 4) = Inr False"
proof -
  have c: "fst (get_capacity_info ex_env ''a'') = Inr (4294967296, 4096000000, 10)"
    by (simp add: ex_capacity_a)
  have u: "\<not> (4294967296 - 4096000000) / 4294967296 > smbfs_used_ratio (conf ex_env)"
    by (simp add: ex_env_def ex_conf_def)
  have o: "smbfs_oversub_ratio (conf ex_env) = 1"
    by (simp add: ex_env_def ex_conf_def)
  show ?thesis
    using eligible_iff_oversub_checks [OF c _ u, of 1]
      eligible_iff_oversub_checks [OF c _ u, of 4] c u
    by (simp add: o)
qed

text \<open>
  C8: a share whose capacity query reports \<open>total_size = 0\<close> is neither rejected nor
  accepted: no guard precedes the division by \<open>total_size\<close>, and the eligibility check
  ends in \<^verbatim>\<open>ZeroDivisionError\<close>, whatever the ratios and the requested size are.
\<close>

theorem zero_total_size_divides_by_zero:
  assumes "fst (get_capacity_info env smbfs_share) = Inr (0, total_available, total_allocated)"
  shows "fst (is_share_eligible env smbfs_share volume_size_in_gib) = Inl ZeroDivisionError"
  using assms
  by (cases "get_capacity_info env smbfs_share")
     (simp add: is_share_eligible_def eligible_checks_def py_div_def)

theorem zero_total_size_divides_by_zero_witness:
  "fst (get_capacity_info ex_env ''z'') = Inr (0, 0, 0)
   \<and> fst (is_share_eligible ex_env ''z'' 1) = Inl ZeroDivisionError"
proof -
  have c: "fst (get_capacity_info ex_env ''z'') = Inr (0, 0, 0)"
    by (simp add: ex_capacity_z)
  show ?thesis
    using zero_total_size_divides_by_zero [OF c, of 1] c by simp
qed

subsection \<open>Capacity inspection\<close>

text \<open>
  C7: when the block statistics command at the share's mount point prints block size,
  total blocks and available blocks, and the disk usage command prints the allocated
  bytes first, \<^verbatim>\<open>_get_capacity_info\<close> returns
  \<open>(block_size * blocks_total, block_size * blocks_avail, allocated)\<close>. The disk usage
  command is \<^verbatim>\<open>du -sb --apparent-size --exclude *snapshot*\<close> on the mount
  point: apparent sizes, with the paths matching \<^verbatim>\<open>*snapshot*\<close> left out.
\<close>

theorem get_capacity_info_triple:
  assumes "execute env [''stat'', ''-f'', ''-c'', ''%S %b %a'', get_mount_point env smbfs_share]
             = Inr df"
    and "str_split df = [t1, t2, t3]"
    and "pyfloat env t1 = Some block_size"
    and "pyfloat env t2 = Some blocks_total"
    and "pyfloat env t3 = Some blocks_avail"
    and "execute env [''du'', ''-sb'', ''--apparent-size'', ''--exclude'', ''*snapshot*'',
                      get_mount_point env smbfs_share] = Inr du"
    and "str_split du = t # ts"
    and "pyfloat env t = Some allocated"
  shows "get_capacity_info env smbfs_share =
           (Inr (block_size * blocks_total, block_size * blocks_avail, allocated),
            [Exec [''stat'', ''-f'', ''-c'', ''%S %b %a'', get_mount_point env smbfs_share],
             Exec [''du'', ''-sb'', ''--apparent-size'', ''--exclude'', ''*snapshot*'',
                   get_mount_point env smbfs_share]])"
  using assms
  by (simp add: get_capacity_info_def stat_cmd_def du_cmd_def unpack3_def first_float_def Let_def)

theorem get_capacity_info_triple_witness:
  "get_capacity_info ex_env ''a'' =
     (Inr (4096 * 1048576, 4096 * 1000000, 10),
      [Exec [''stat'', ''-f'', ''-c'', ''%S %b %a'', ''/mnt/a''],
       Exec [''du'', ''-sb'', ''--apparent-size'', ''--exclude'', ''*snapshot*'', ''/mnt/a'']])"
proof -
  have m: "get_mount_point ex_env ''a'' = ''/mnt/a''"
    by (simp add: ex_env_def)
  have 1: "execute ex_env [''stat'', ''-f'', ''-c'', ''%S %b %a'', get_mount_point ex_env ''a'']
             = Inr ''4096 1048576 1000000''"
    by (simp add: ex_env_def ex_execute_def stat_cmd_def)
  have 2: "str_split ''4096 1048576 1000000'' = [''4096'', ''1048576'', ''1000000'']"
    by (simp add: str_split_def isspace_def)
  have 3: "pyfloat ex_env ''4096'' = Some 4096"
    by (simp add: ex_env_def dec_float_def digit_val_def)
  have 4: "pyfloat ex_env ''1048576'' = Some 1048576"
    by (simp add: ex_env_def dec_float_def digit_val_def)
  have 5: "pyfloat ex_env ''1000000'' = Some 1000000"
    by (simp add: ex_env_def dec_float_def digit_val_def)
  have 6: "execute ex_env [''du'', ''-sb'', ''--apparent-size'', ''--exclude'', ''*snapshot*'',
                           get_mount_point ex_env ''a''] = Inr (''10'' @ [CHR 0x09] @ ''/mnt/a'')"
    by (simp add: ex_env_def ex_execute_def stat_cmd_def du_cmd_def)
  have 7: "str_split (''10'' @ [CHR 0x09] @ ''/mnt/a'') = ''10'' # [''/mnt/a'']"
    by (simp add: str_split_def isspace_def)
  have 8: "pyfloat ex_env ''10'' = Some 10"
    by (simp add: ex_env_def dec_float_def digit_val_def)
  show ?thesis
    using get_capacity_info_triple [OF 1 2 3 4 5 6 7 8] by (simp add: m)
qed

subsection \<open>Share selection\<close>

lemma loop_all_ineligible:
  "(\<And>s. s \<in> set xs \<Longrightarrow> fst (is_share_eligible env s sz) = Inr False)
   \<Longrightarrow> fst (find_share_loop env sz xs st) = Inr st"
proof (induction xs)
  case Nil
  then show ?case by simp
next
  case (Cons x xs)
  have x: "fst (is_share_eligible env x sz) = Inr False"
    using Cons.prems by simp
  have "fst (find_share_loop env sz xs st) = Inr st"
    using Cons by simp
  with x show ?case
    by (cases "is_share_eligible env x sz"; cases "find_share_loop env sz xs st") simp
qed

lemma eligible_capacity:
  assumes "eligible env sz s"
  shows "\<exists>ts ta. fst (get_capacity_info env s) = Inr (ts, ta, total_allocated_of env s)"
  using assms
  by (cases "get_capacity_info env s")
     (auto simp add: eligible_def is_share_eligible_def total_allocated_of_def
           split: sum.splits prod.splits)

lemma loop_skip:
  assumes "fst (is_share_eligible env x sz) = Inr False"
  shows "fst (find_share_loop env sz (x # xs) st) = fst (find_share_loop env sz xs st)"
  using assms
  by (cases "is_share_eligible env x sz"; cases "find_share_loop env sz xs st") simp

lemma loop_take:
  assumes "eligible env sz x"
  shows "fst (find_share_loop env sz (x # xs) st) =
           fst (find_share_loop env sz xs (choose_target st x (total_allocated_of env x)))"
proof -
  obtain ts ta where c: "fst (get_capacity_info env x) = Inr (ts, ta, total_allocated_of env x)"
    using eligible_capacity [OF assms] by blast
  have e: "fst (is_share_eligible env x sz) = Inr True"
    using assms by (simp add: eligible_def)
  show ?thesis
    using c e
    by (cases "is_share_eligible env x sz"; cases "get_capacity_info env x";
        cases "find_share_loop env sz xs (choose_target st x (total_allocated_of env x))")
       simp
qed

lemma first_least_skip:
  assumes "first_least env sz xs w"
    and "eligible env sz x \<Longrightarrow> total_allocated_of env w < total_allocated_of env x"
  shows "first_least env sz (x # xs) w"
proof -
  obtain pre post where d: "xs = pre @ w # post" "eligible env sz w"
    "\<forall>s \<in> set pre. eligible env sz s \<longrightarrow> total_allocated_of env w < total_allocated_of env s"
    "\<forall>s \<in> set post. eligible env sz s \<longrightarrow> total_allocated_of env w \<le> total_allocated_of env s"
    using assms(1) unfolding first_least_def by blast
  have "x # xs = (x # pre) @ w # post" using d(1) by simp
  moreover have "\<forall>s \<in> set (x # pre). eligible env sz s \<longrightarrow>
                   total_allocated_of env w < total_allocated_of env s"
    using d(3) assms(2) by simp
  ultimately show ?thesis
    unfolding first_least_def using d(2) d(4) by blast
qed

lemma first_least_head:
  assumes "eligible env sz x"
    and "\<forall>s \<in> set xs. eligible env sz s \<longrightarrow> total_allocated_of env x \<le> total_allocated_of env s"
  shows "first_least env sz (x # xs) x"
proof -
  have "x # xs = [] @ x # xs" by simp
  then show ?thesis
    unfolding first_least_def using assms by fastforce
qed

lemma loop_with_target:
  assumes "\<forall>s \<in> set xs. \<exists>b. fst (is_share_eligible env s sz) = Inr b"
  shows "\<exists>w r'. fst (find_share_loop env sz xs (Some u, r)) = Inr (Some w, r') \<and>
          ((w = u \<and> r' = r \<and>
            (\<forall>s \<in> set xs. eligible env sz s \<longrightarrow> r \<le> total_allocated_of env s))
           \<or> (r' < r \<and> r' = total_allocated_of env w \<and> first_least env sz xs w))"
  using assms
proof (induction xs arbitrary: u r)
  case Nil
  then show ?case by simp
next
  case (Cons x xs)
  have rest: "\<forall>s \<in> set xs. \<exists>b. fst (is_share_eligible env s sz) = Inr b"
    using Cons.prems by simp
  obtain b where b: "fst (is_share_eligible env x sz) = Inr b"
    using Cons.prems by auto
  show ?case
  proof (cases "eligible env sz x")
    case False
    then have "fst (is_share_eligible env x sz) = Inr False"
      using b by (simp add: eligible_def)
    then have skip: "fst (find_share_loop env sz (x # xs) (Some u, r)) =
                       fst (find_share_loop env sz xs (Some u, r))"
      by (rule loop_skip)
    obtain w r' where ih: "fst (find_share_loop env sz xs (Some u, r)) = Inr (Some w, r')"
      "(w = u \<and> r' = r \<and>
         (\<forall>s \<in> set xs. eligible env sz s \<longrightarrow> r \<le> total_allocated_of env s))
       \<or> (r' < r \<and> r' = total_allocated_of env w \<and> first_least env sz xs w)"
      using Cons.IH [OF rest, of u r] by blast
    from ih(2) have "(w = u \<and> r' = r \<and>
         (\<forall>s \<in> set (x # xs). eligible env sz s \<longrightarrow> r \<le> total_allocated_of env s))
       \<or> (r' < r \<and> r' = total_allocated_of env w \<and> first_least env sz (x # xs) w)"
      using False first_least_skip [of env sz xs w x] by auto
    then show ?thesis using skip ih(1) by simp
  next
    case True
    let ?a = "total_allocated_of env x"
    show ?thesis
    proof (cases "r > ?a")
      case gt: True
      have take: "fst (find_share_loop env sz (x # xs) (Some u, r)) =
                    fst (find_share_loop env sz xs (Some x, ?a))"
        using loop_take [OF True, of xs "(Some u, r)"] gt by (simp add: choose_target_def)
      obtain w r' where ih: "fst (find_share_loop env sz xs (Some x, ?a)) = Inr (Some w, r')"
        "(w = x \<and> r' = ?a \<and>
           (\<forall>s \<in> set xs. eligible env sz s \<longrightarrow> ?a \<le> total_allocated_of env s))
         \<or> (r' < ?a \<and> r' = total_allocated_of env w \<and> first_least env sz xs w)"
        using Cons.IH [OF rest, of x ?a] by blast
      from ih(2) have "r' < r \<and> r' = total_allocated_of env w \<and> first_least env sz (x # xs) w"
      proof
        assume h: "w = x \<and> r' = ?a \<and>
           (\<forall>s \<in> set xs. eligible env sz s \<longrightarrow> ?a \<le> total_allocated_of env s)"
        then have "first_least env sz (x # xs) x"
          using first_least_head [OF True] by blast
        then show ?thesis using h gt by simp
      next
        assume h: "r' < ?a \<and> r' = total_allocated_of env w \<and> first_least env sz xs w"
        then have "first_least env sz (x # xs) w"
          using first_least_skip [of env sz xs w x] by simp
        then show ?thesis using h gt by simp
      qed
      then show ?thesis using take ih(1) by simp
    next
      case le: False
      have take: "fst (find_share_loop env sz (x # xs) (Some u, r)) =
                    fst (find_share_loop env sz xs (Some u, r))"
        using loop_take [OF True, of xs "(Some u, r)"] le by (simp add: choose_target_def)
      obtain w r' where ih: "fst (find_share_loop env sz xs (Some u, r)) = Inr (Some w, r')"
        "(w = u \<and> r' = r \<and>
           (\<forall>s \<in> set xs. eligible env sz s \<longrightarrow> r \<le> total_allocated_of env s))
         \<or> (r' < r \<and> r' = total_allocated_of env w \<and> first_least env sz xs w)"
        using Cons.IH [OF rest, of u r] by blast
      from ih(2) have "(w = u \<and> r' = r \<and>
           (\<forall>s \<in> set (x # xs). eligible env sz s \<longrightarrow> r \<le> total_allocated_of env s))
         \<or> (r' < r \<and> r' = total_allocated_of env w \<and> first_least env sz (x # xs) w)"
      proof
        assume h: "w = u \<and> r' = r \<and>
           (\<forall>s \<in> set xs. eligible env sz s \<longrightarrow> r \<le> total_allocated_of env s)"
        then show ?thesis using le by auto
      next
        assume h: "r' < r \<and> r' = total_allocated_of env w \<and> first_least env sz xs w"
        then have "first_least env sz (x # xs) w"
          using first_least_skip [of env sz xs w x] le by simp
        then show ?thesis using h by simp
      qed
      then show ?thesis using take ih(1) by simp
    qed
  qed
qed

lemma loop_without_target:
  assumes "\<forall>s \<in> set xs. \<exists>b. fst (is_share_eligible env s sz) = Inr b"
    and "\<exists>s \<in> set xs. eligible env sz s"
  shows "\<exists>w r'. fst (find_share_loop env sz xs (None, r)) = Inr (Some w, r') \<and>
           first_least env sz xs w"
  using assms
proof (induction xs)
  case Nil
  then show ?case by simp
next
  case (Cons x xs)
  have rest: "\<forall>s \<in> set xs. \<exists>b. fst (is_share_eligible env s sz) = Inr b"
    using Cons.prems(1) by simp
  obtain b where b: "fst (is_share_eligible env x sz) = Inr b"
    using Cons.prems(1) by auto
  show ?case
  proof (cases "eligible env sz x")
    case False
    then have "fst (is_share_eligible env x sz) = Inr False"
      using b by (simp add: eligible_def)
    then have skip: "fst (find_share_loop env sz (x # xs) (None, r)) =
                       fst (find_share_loop env sz xs (None, r))"
      by (rule loop_skip)
    have "\<exists>s \<in> set xs. eligible env sz s"
      using Cons.prems(2) False by auto
    then obtain w r' where ih: "fst (find_share_loop env sz xs (None, r)) = Inr (Some w, r')"
      "first_least env sz xs w"
      using Cons.IH [OF rest] by blast
    have "first_least env sz (x # xs) w"
      by (rule first_least_skip [OF ih(2)]) (simp add: False)
    then show ?thesis using skip ih(1) by simp
  next
    case True
    let ?a = "total_allocated_of env x"
    have take: "fst (find_share_loop env sz (x # xs) (None, r)) =
                  fst (find_share_loop env sz xs (Some x, ?a))"
      using loop_take [OF True, of xs "(None, r)"] by (simp add: choose_target_def)
    obtain w r' where t: "fst (find_share_loop env sz xs (Some x, ?a)) = Inr (Some w, r')"
      "(w = x \<and> r' = ?a \<and>
         (\<forall>s \<in> set xs. eligible env sz s \<longrightarrow> ?a \<le> total_allocated_of env s))
       \<or> (r' < ?a \<and> r' = total_allocated_of env w \<and> first_least env sz xs w)"
      using loop_with_target [OF rest, of x ?a] by blast
    from t(2) have "first_least env sz (x # xs) w"
    proof
      assume "w = x \<and> r' = ?a \<and>
         (\<forall>s \<in> set xs. eligible env sz s \<longrightarrow> ?a \<le> total_allocated_of env s)"
      then show ?thesis using first_least_head [OF True] by blast
    next
      assume "r' < ?a \<and> r' = total_allocated_of env w \<and> first_least env sz xs w"
      then show ?thesis using first_least_skip [of env sz xs w x] by simp
    qed
    then show ?thesis using take t(1) by simp
  qed
qed

lemma find_append_miss:
  "\<forall>x \<in> set xs. \<not> P x \<Longrightarrow> find P (xs @ ys) = find P ys"
  by (induction xs) simp_all

lemma first_least_is_least_allocated:
  assumes "first_least env sz xs w"
  shows "least_allocated_share env sz xs = Some w"
proof -
  let ?A = "total_allocated_of env"
  obtain pre post where d: "xs = pre @ w # post" "eligible env sz w"
    "\<forall>s \<in> set pre. eligible env sz s \<longrightarrow> ?A w < ?A s"
    "\<forall>s \<in> set post. eligible env sz s \<longrightarrow> ?A w \<le> ?A s"
    using assms unfolding first_least_def by blast
  let ?es = "filter (eligible env sz) xs"
  have es: "?es = filter (eligible env sz) pre @ w # filter (eligible env sz) post"
    using d(1) d(2) by simp
  have ne: "?es \<noteq> []" using es by simp
  have m: "Min (set (map ?A ?es)) = ?A w"
  proof (rule Min_eqI)
    show "finite (set (map ?A ?es))" by simp
    show "?A w \<in> set (map ?A ?es)" using es by simp
    fix y assume "y \<in> set (map ?A ?es)"
    then obtain s where s: "s \<in> set ?es" "y = ?A s" by auto
    then have "s \<in> set pre \<and> eligible env sz s \<or> s = w \<or> s \<in> set post \<and> eligible env sz s"
      using d(1) d(2) by auto
    then show "?A w \<le> y" using d(3) d(4) s(2) by auto
  qed
  have "find (\<lambda>s. ?A s = ?A w) ?es = Some w"
  proof -
    have "\<forall>s \<in> set (filter (eligible env sz) pre). \<not> ?A s = ?A w"
      using d(3) by auto
    then have "find (\<lambda>s. ?A s = ?A w) ?es =
                 find (\<lambda>s. ?A s = ?A w) (w # filter (eligible env sz) post)"
      unfolding es by (rule find_append_miss)
    then show ?thesis by simp
  qed
  then show ?thesis
    using ne m by (simp add: least_allocated_share_def Let_def)
qed

text \<open>
  C5: with no mounted share, \<^verbatim>\<open>_find_share\<close> fails with
  \<^verbatim>\<open>SmbfsNoSharesMounted\<close> for every requested size, and nothing has happened
  before: no inspection command was run and no record was written.
\<close>

theorem find_share_no_shares_mounted:
  "find_share env (self\<lparr>mounted_shares := []\<rparr>) volume_size_in_gib =
     (Inl SmbfsNoSharesMounted, [])"
  by (simp add: find_share_def)

theorem find_share_no_shares_mounted_witness:
  "find_share ex_env (ex_driver []) 1 = (Inl SmbfsNoSharesMounted, [])"
  using find_share_no_shares_mounted [of ex_env "ex_driver []" 1]
  by (simp add: ex_driver_def)

text \<open>
  C6: when there are mounted shares and the eligibility check returns false for every
  one of them, \<^verbatim>\<open>_find_share\<close> fails with
  \<^verbatim>\<open>SmbfsNoSuitableShareFound\<close>, which carries the requested size.
\<close>

theorem find_share_no_suitable_share:
  assumes "mounted_shares self \<noteq> []"
    and "\<forall>s \<in> set (mounted_shares self).
           fst (is_share_eligible env s volume_size_in_gib) = Inr False"
  shows "fst (find_share env self volume_size_in_gib) =
           Inl (SmbfsNoSuitableShareFound volume_size_in_gib)"
proof -
  have "fst (find_share_loop env volume_size_in_gib (mounted_shares self) (None, 0)) =
          Inr (None, 0)"
    using assms(2) by (intro loop_all_ineligible) simp
  then show ?thesis
    using assms(1)
    by (cases "find_share_loop env volume_size_in_gib (mounted_shares self) (None, 0)")
       (simp add: find_share_def)
qed

theorem find_share_no_suitable_share_witness:
  "mounted_shares (ex_driver [''f'']) = [''f'']
   \<and> fst (is_share_eligible ex_env ''f'' 1) = Inr False
   \<and> fst (find_share ex_env (ex_driver [''f'']) 1) = Inl (SmbfsNoSuitableShareFound 1)"
proof -
  have 1: "mounted_shares (ex_driver [''f'']) \<noteq> []"
    by (simp add: ex_driver_def)
  have 2: "\<forall>s \<in> set (mounted_shares (ex_driver [''f''])).
             fst (is_share_eligible ex_env s 1) = Inr False"
    by (simp add: ex_driver_def ex_eligible_f)
  show ?thesis
    using find_share_no_suitable_share [OF 1 2]
    by (simp add: ex_driver_def ex_eligible_f)
qed

text \<open>
  C1 as stated fails: share \<open>a\<close> is mounted and eligible, but the inspection of share
  \<open>z\<close>, mounted as well, ends in an exception, which ends \<^verbatim>\<open>_find_share\<close>:
  no share is returned.
\<close>

theorem find_share_raises_counterexample:
  "eligible ex_env 1 ''a''
   \<and> ''a'' \<in> set (mounted_shares (ex_driver [''a'', ''z'']))
   \<and> fst (find_share ex_env (ex_driver [''a'', ''z'']) 1) = Inl ZeroDivisionError"
  by (simp add: eligible_def find_share_def ex_driver_def ex_eligible_a ex_eligible_z
        ex_capacity_a choose_target_def)

text \<open>
  C1, amended: when the eligibility check of every mounted share completes (returns
  true or false) and at least one share is eligible, \<^verbatim>\<open>_find_share\<close> returns
  the eligible share with the lowest \<open>total_allocated\<close>, and among several such shares
  the first one in iteration order.
\<close>

theorem find_share_least_allocated:
  assumes "\<forall>s \<in> set (mounted_shares self).
             \<exists>b. fst (is_share_eligible env s volume_size_in_gib) = Inr b"
    and "\<exists>s \<in> set (mounted_shares self). eligible env volume_size_in_gib s"
  shows "\<exists>w. fst (find_share env self volume_size_in_gib) = Inr w
           \<and> least_allocated_share env volume_size_in_gib (mounted_shares self) = Some w
           \<and> first_least env volume_size_in_gib (mounted_shares self) w"
proof -
  obtain w r' where l:
    "fst (find_share_loop env volume_size_in_gib (mounted_shares self) (None, 0)) =
       Inr (Some w, r')"
    "first_least env volume_size_in_gib (mounted_shares self) w"
    using loop_without_target [OF assms, of 0] by blast
  have ne: "mounted_shares self \<noteq> []" using assms(2) by auto
  have "fst (find_share env self volume_size_in_gib) = Inr w"
    using l(1) ne
    by (cases "find_share_loop env volume_size_in_gib (mounted_shares self) (None, 0)")
       (simp add: find_share_def)
  then show ?thesis
    using l(2) first_least_is_least_allocated [OF l(2)] by blast
qed

theorem find_share_least_allocated_witness:
  "mounted_shares (ex_driver [''a'', ''b'', ''c'']) = [''a'', ''b'', ''c'']
   \<and> fst (is_share_eligible ex_env ''a'' 1) = Inr True
   \<and> fst (is_share_eligible ex_env ''b'' 1) = Inr True
   \<and> fst (is_share_eligible ex_env ''c'' 1) = Inr True
   \<and> total_allocated_of ex_env ''a'' = 10
   \<and> total_allocated_of ex_env ''b'' = 5
   \<and> total_allocated_of ex_env ''c'' = 5
   \<and> fst (find_share ex_env (ex_driver [''a'', ''b'', ''c'']) 1) = Inr ''b''"
proof -
  have 1: "\<forall>s \<in> set (mounted_shares (ex_driver [''a'', ''b'', ''c''])).
             \<exists>b. fst (is_share_eligible ex_env s 1) = Inr b"
    by (auto simp add: ex_driver_def ex_eligible_a ex_eligible_b ex_eligible_c)
  have 2: "\<exists>s \<in> set (mounted_shares (ex_driver [''a'', ''b'', ''c''])). eligible ex_env 1 s"
    by (simp add: ex_driver_def eligible_def ex_eligible_a)
  have 3: "least_allocated_share ex_env 1 (mounted_shares (ex_driver [''a'', ''b'', ''c'']))
             = Some ''b''"
    by (simp add: least_allocated_share_def ex_driver_def eligible_def total_allocated_of_def
          ex_eligible_a ex_eligible_b ex_eligible_c ex_capacity_a ex_capacity_b ex_capacity_c)
  have 4: "fst (find_share ex_env (ex_driver [''a'', ''b'', ''c'']) 1) = Inr ''b''"
    using find_share_least_allocated [OF 1 2] 3 by auto
  show ?thesis
    using 4
    by (simp add: ex_driver_def total_allocated_of_def ex_eligible_a ex_eligible_b
          ex_eligible_c ex_capacity_a ex_capacity_b ex_capacity_c)
qed

subsection \<open>Setup\<close>

lemma used_ratio_check_fires_iff:
  "((\<not> smbfs_used_ratio c > 0) \<and> smbfs_used_ratio c \<le> 1) = (smbfs_used_ratio c \<le> 0)"
  by auto

lemma do_setup_rejects_used_ratio_0:
  "do_setup (ex_env\<lparr>conf := ex_conf\<lparr>smbfs_used_ratio := 0\<rparr>\<rparr>) (ex_driver []) =
     (Inl (SmbfsException Used_ratio_invalid), [Log Error Used_ratio_invalid []])"
  by (simp add: do_setup_def ex_env_def ex_conf_def)

lemma do_setup_used_ratio_above_1:
  assumes "super_do_setup env self = Inr self1"
    and "smbfs_shares_config (conf env) = Some config" and "config \<noteq> []"
    and "path_exists env config" and "smbfs_oversub_ratio (conf env) > 0"
    and "smbfs_used_ratio (conf env) > 1"
  shows "do_setup env self = (ensure_shares_mounted env (self1\<lparr>shares := Map.empty\<rparr>), [])"
  using assms by (simp add: do_setup_def)

text \<open>
  C4: the source's test is \<^verbatim>\<open>(not used_ratio > 0) and (used_ratio <= 1)\<close>, which
  holds exactly when \<open>used_ratio \<le> 0\<close>. With \<open>used_ratio = 2\<close>, outside the range
  \<open>(0, 1]\<close> that the error message of the test names, and an otherwise valid
  configuration, \<^verbatim>\<open>do_setup\<close> raises nothing and goes on to mount the shares.
\<close>

theorem do_setup_accepts_used_ratio_2:
  "do_setup (ex_env\<lparr>conf := ex_conf\<lparr>smbfs_used_ratio := 2\<rparr>\<rparr>) (ex_driver []) =
     (Inr ((ex_driver [])\<lparr>shares := Map.empty\<rparr>), [])"
  by (simp add: do_setup_def ex_env_def ex_conf_def)

subsection \<open>Creating volumes\<close>

lemma unsupported_type_never_creates:
  assumes "vol_type volume = Some vt"
    and "vt_name vt \<noteq> ''vpc''" and "vt_name vt \<noteq> ''vhd''" and "vt_name vt \<noteq> ''vhdx''"
  shows "do_create_volume env self volume =
           (if path_exists env (local_path env volume)
            then (Inl (InvalidVolume File_already_exists_at),
                  [Log Debug Creating_new_volume_at [local_path env volume],
                   Log Error File_already_exists_at [local_path env volume]])
            else (Inl (NameError ''SmbfsException''),
                  [Log Debug Creating_new_volume_at [local_path env volume]]))"
  using assms by (simp add: do_create_volume_def create_file_def Let_def)

text \<open>
  C9: creating a volume whose type is present and named \<open>qcow2\<close> (not one of
  \<open>vpc\<close>, \<open>vhd\<close>, \<open>vhdx\<close>), at a path that does not exist yet, runs no command and
  creates no file, and the exception that reaches the caller is \<^verbatim>\<open>NameError\<close>:
  the \<^verbatim>\<open>raise\<close> statement names a class the module does not bind.
\<close>

theorem do_create_volume_unsupported_type:
  "do_create_volume ex_env (ex_driver [''a'']) (ex_volume ''qcow2'') =
     (Inl (NameError ''SmbfsException''),
      [Log Debug Creating_new_volume_at [''/mnt/a/volume-1'']])"
  by (simp add: do_create_volume_def create_file_def ex_env_def ex_volume_def)

subsection \<open>Mounting\<close>

lemma split_aux_tokens:
  assumes "\<forall>c \<in> set cur. \<not> isspace c"
  shows "\<forall>t \<in> set (split_aux cur s). t \<noteq> [] \<and> (\<forall>c \<in> set t. \<not> isspace c)"
  using assms
proof (induction s arbitrary: cur)
  case Nil
  then show ?case by simp
next
  case (Cons a s)
  have e: "\<forall>t \<in> set (split_aux [] s). t \<noteq> [] \<and> (\<forall>c \<in> set t. \<not> isspace c)"
    using Cons.IH [of "[]"] by simp
  show ?case
  proof (cases "isspace a")
    case True
    then show ?thesis using e Cons.prems by simp
  next
    case False
    then have "\<forall>c \<in> set (cur @ [a]). \<not> isspace c"
      using Cons.prems by simp
    then show ?thesis using Cons.IH [of "cur @ [a]"] False by simp
  qed
qed

lemma str_split_tokens:
  "\<forall>t \<in> set (str_split s). t \<noteq> [] \<and> (\<forall>c \<in> set t. \<not> isspace c)"
  unfolding str_split_def by (rule split_aux_tokens) simp

lemma concat_split_aux:
  "concat (split_aux cur s) = cur @ filter (\<lambda>c. \<not> isspace c) s"
  by (induction s arbitrary: cur) auto

text \<open>
  C10: \<^verbatim>\<open>_ensure_share_mounted\<close> always calls the client's \<^verbatim>\<open>mount\<close>,
  once, and its outcome is the outcome of that call. A share that is not in the shares
  map, or is mapped to \<^verbatim>\<open>None\<close>, is mounted with an empty flag list; a share
  with an options string is mounted with the whitespace-separated tokens of the string.
\<close>

theorem ensure_share_mounted_always_mounts:
  "(shares self smbfs_share = None \<or> shares self smbfs_share = Some None \<longrightarrow>
      ensure_share_mounted env self smbfs_share =
        (mount env smbfs_share [],
         [Log Debug Repr_debug [], Log Debug Repr_debug [smbfs_share], Mount smbfs_share []]))
   \<and> (\<forall>opts. shares self smbfs_share = Some (Some opts) \<longrightarrow>
         ensure_share_mounted env self smbfs_share =
           (mount env smbfs_share (str_split opts),
            [Log Debug Repr_debug [], Log Debug Repr_debug [smbfs_share],
             Mount smbfs_share (str_split opts)]))"
  by (auto simp add: ensure_share_mounted_def mnt_flags_of_def Let_def)

theorem ensure_share_mounted_always_mounts_witness:
  "shares (ex_driver []) ''a'' = Some (Some ''-o username=u,password=p'')
   \<and> ensure_share_mounted ex_env (ex_driver []) ''a'' =
       (Inr (), [Log Debug Repr_debug [], Log Debug Repr_debug [''a''],
                 Mount ''a'' [''-o'', ''username=u,password=p'']])
   \<and> shares (ex_driver []) ''b'' = Some None
   \<and> ensure_share_mounted ex_env (ex_driver []) ''b'' =
       (Inr (), [Log Debug Repr_debug [], Log Debug Repr_debug [''b''], Mount ''b'' []])
   \<and> shares (ex_driver []) ''c'' = None
   \<and> ensure_share_mounted ex_env (ex_driver []) ''c'' =
       (Inr (), [Log Debug Repr_debug [], Log Debug Repr_debug [''c''], Mount ''c'' []])"
proof -
  have a: "shares (ex_driver []) ''a'' = Some (Some ''-o username=u,password=p'')"
    by (simp add: ex_driver_def)
  have b: "shares (ex_driver []) ''b'' = Some None"
    by (simp add: ex_driver_def)
  have c: "shares (ex_driver []) ''c'' = None"
    by (simp add: ex_driver_def)
  have s: "str_split ''-o username=u,password=p'' = [''-o'', ''username=u,password=p'']"
    by (simp add: str_split_def isspace_def)
  have m: "mount ex_env = (\<lambda>s fl. Inr ())"
    by (simp add: ex_env_def)
  show ?thesis
    using ensure_share_mounted_always_mounts [of "ex_driver []" "''a''" ex_env]
      ensure_share_mounted_always_mounts [of "ex_driver []" "''b''" ex_env]
      ensure_share_mounted_always_mounts [of "ex_driver []" "''c''" ex_env]
      a b c
    by (simp add: s m)
qed

end
